theory Spec2Isabelle
  imports Main "HOL-Library.Word"
begin

section \<open>nano_libc: the memory and the observable state\<close>

text \<open>
  The translation unit \<^verbatim>\<open>src/nano_libc.c\<close> has three functions: \<^verbatim>\<open>strcpy\<close>,
  \<^verbatim>\<open>debug_puts\<close> and \<^verbatim>\<open>__assert_fail\<close>. They work on \<^verbatim>\<open>char\<close> pointers, so the
  model has a byte-addressed memory. A \<^verbatim>\<open>char\<close> is a HOL \<^typ>\<open>char\<close> (eight bits), the
  terminator \<^verbatim>\<open>'\0'\<close> is \<^term>\<open>CHR 0x00\<close>, and a pointer is an address of a flat memory
  in which every address can be read and written, as on the machine: the code itself has
  no bounds check. Addresses are natural numbers, so \<^verbatim>\<open>s++\<close> never wraps.
\<close>

type_synonym addr = nat
type_synonym mem = "addr \<Rightarrow> char"
type_synonym c_int = "32 word"

text \<open>The bytes \<open>k\<close> bytes long that memory \<open>m\<close> holds from address \<open>a\<close> on.\<close>

definition peek :: "mem \<Rightarrow> addr \<Rightarrow> nat \<Rightarrow> string" where
  "peek m a k = map m [a..<a + k]"

text \<open>
  Memory \<open>m\<close> holds at \<open>s\<close> a null-terminated byte sequence whose bytes before the
  terminator are \<open>xs\<close>: none of them is zero, and the zero byte follows them. Its length
  including the terminator is \<open>length xs + 1\<close>.
\<close>

definition cstr_at :: "mem \<Rightarrow> addr \<Rightarrow> string \<Rightarrow> bool" where
  "cstr_at m s xs = (list_all (\<lambda>c. c \<noteq> CHR 0x00) xs \<and> peek m s (length xs + 1) = xs @ [CHR 0x00])"

text \<open>A memory given by its first bytes (zero everywhere else), to write concrete inputs.\<close>

definition mem_of :: "string \<Rightarrow> mem" where
  "mem_of bs = (\<lambda>a. if a < length bs then bs ! a else CHR 0x00)"

text \<open>
  A string literal of the source, \<^verbatim>\<open>"ASSERT "\<close> say, is an array of static storage that
  holds the characters and then the terminator. The model gives each literal a memory of
  its own, read from its first byte (address 0).
\<close>

definition literal :: "string \<Rightarrow> mem" where
  "literal s = mem_of (s @ [CHR 0x00])"

section \<open>strcpy\<close>

text \<open>
  \<^verbatim>\<open>
  extern char * strcpy( char * s1, const char * s2 )
  {
    char * rc = s1;
    while ( ( *s1++ = *s2++ ) );
    return rc;
  }
  \<close>
  One turn of the loop reads the byte at \<open>s2\<close>, stores it at \<open>s1\<close>, advances both
  pointers, and goes on when the byte stored is not zero. Nothing bounds the loop, so it
  is a partial function: \<open>None\<close> is the loop that never ends.
\<close>

partial_function (option) strcpy_loop :: "mem \<Rightarrow> addr \<Rightarrow> addr \<Rightarrow> mem option" where
  "strcpy_loop m s1 s2 =
     (let c = m s2; m' = m(s1 := c)
      in if c \<noteq> CHR 0x00 then strcpy_loop m' (s1 + 1) (s2 + 1) else Some m')"

declare strcpy_loop.simps [code]

definition strcpy :: "mem \<Rightarrow> addr \<Rightarrow> addr \<Rightarrow> (mem \<times> addr) option" where
  "strcpy m s1 s2 =
     (let rc = s1
      in case strcpy_loop m s1 s2 of None \<Rightarrow> None | Some m' \<Rightarrow> Some (m', rc))"

text \<open>
  Two notions to state what the loop does. \<open>written m s1 bs\<close> is memory \<open>m\<close> with
  the bytes \<open>bs\<close> stored from address \<open>s1\<close> on and every other byte as it was.
  \<open>corrupting_overlap s1 s2 n\<close> is the overlap that the contract of the copy leaves to
  the caller to avoid: the destination starts inside the \<open>n\<close> bytes of the source, past
  the first one, so that the loop overwrites source bytes it has not read yet.
\<close>

definition written :: "mem \<Rightarrow> addr \<Rightarrow> string \<Rightarrow> mem" where
  "written m s1 bs = (\<lambda>a. if s1 \<le> a \<and> a < s1 + length bs then bs ! (a - s1) else m a)"

definition corrupting_overlap :: "addr \<Rightarrow> addr \<Rightarrow> nat \<Rightarrow> bool" where
  "corrupting_overlap s1 s2 n = (s2 < s1 \<and> s1 < s2 + n)"

section \<open>debug_puts\<close>

text \<open>
  \<^verbatim>\<open>
  #ifdef KernelPrinting
  extern void seL4_DebugPutChar(char);
  #endif

  void debug_puts(char* s) {
    #ifdef KernelPrinting
    while ( *s != '\0' ) {
      seL4_DebugPutChar(*s++);
    }
    #endif
  }
  \<close>
\<close>

text \<open>
  Modelled from the spec: \<^verbatim>\<open>seL4_DebugPutChar\<close> is only declared in the source; the host
  kernel supplies it. It accepts one character and returns nothing. What can be observed
  of it is the sequence of its calls, so the state it acts on is the list of the
  characters it was called with, in call order, and a call adds its argument at the end.
\<close>

definition seL4_DebugPutChar :: "char \<Rightarrow> string \<Rightarrow> string" where
  "seL4_DebugPutChar c out = out @ [c]"

text \<open>How a statement or a call ends: it returns to what follows it, or the core has trapped.\<close>

datatype ctl = Normal | Trapped

type_synonym stmt = "string \<Rightarrow> (ctl \<times> string) option"

partial_function (option) debug_puts_loop :: "mem \<Rightarrow> addr \<Rightarrow> string \<Rightarrow> string option" where
  "debug_puts_loop m s out =
     (if m s \<noteq> CHR 0x00 then debug_puts_loop m (s + 1) (seL4_DebugPutChar (m s) out)
      else Some out)"

declare debug_puts_loop.simps [code]

text \<open>
  The build flag \<^verbatim>\<open>KernelPrinting\<close> is the first parameter: with it unset the body
  of \<^verbatim>\<open>debug_puts\<close> is empty.
\<close>

definition debug_puts :: "bool \<Rightarrow> mem \<Rightarrow> addr \<Rightarrow> stmt" where
  "debug_puts KernelPrinting m s out =
     (if KernelPrinting
      then (case debug_puts_loop m s out of None \<Rightarrow> None | Some out' \<Rightarrow> Some (Normal, out'))
      else Some (Normal, out))"

section \<open>__assert_fail\<close>

text \<open>
  \<^verbatim>\<open>
  extern void __assert_fail(char *expr, char* file, int line, char* func) {
    // Warning prevention
    (void) line;

    debug_puts("ASSERT ");
    debug_puts(expr);
    debug_puts(" in ");
    debug_puts(func);
    debug_puts(" at ");
    debug_puts(file);
    debug_puts(":??");

    __builtin_trap();
  }
  \<close>
  Statements run in sequence: the second runs from the state the first left, unless the
  first never ended or trapped. \<^verbatim>\<open>__builtin_trap\<close> stops the core where it stands.
  The function is \<open>assert_fail\<close> here, a name cannot begin with an underscore.
\<close>

definition seq :: "stmt \<Rightarrow> stmt \<Rightarrow> stmt" where
  "seq f g out =
     (case f out of
        None \<Rightarrow> None
      | Some (Trapped, out') \<Rightarrow> Some (Trapped, out')
      | Some (Normal, out') \<Rightarrow> g out')"

definition builtin_trap :: stmt where
  "builtin_trap out = Some (Trapped, out)"

definition assert_fail :: "bool \<Rightarrow> mem \<Rightarrow> addr \<Rightarrow> addr \<Rightarrow> c_int \<Rightarrow> addr \<Rightarrow> stmt" where
  "assert_fail KernelPrinting m expr file line func =
     seq (debug_puts KernelPrinting (literal ''ASSERT '') 0)
    (seq (debug_puts KernelPrinting m expr)
    (seq (debug_puts KernelPrinting (literal '' in '') 0)
    (seq (debug_puts KernelPrinting m func)
    (seq (debug_puts KernelPrinting (literal '' at '') 0)
    (seq (debug_puts KernelPrinting m file)
    (seq (debug_puts KernelPrinting (literal '':??'') 0)
         builtin_trap))))))"

section \<open>Null-terminated sequences in memory\<close>

lemma peek_nth: "i < k \<Longrightarrow> peek m a k ! i = m (a + i)"
  by (simp add: peek_def)

lemma length_peek: "length (peek m a k) = k"
  by (simp add: peek_def)

lemma peek_Suc: "peek m a (Suc k) = m a # peek m (Suc a) k"
  by (simp add: peek_def upt_conv_Cons del: upt_Suc)

lemma peek_cong: "(\<And>i. i < k \<Longrightarrow> m' (a + i) = m (a + i)) \<Longrightarrow> peek m' a k = peek m a k"
  by (rule nth_equalityI) (simp_all add: length_peek peek_nth)

lemma cstr_at_Nil: "cstr_at m s [] \<longleftrightarrow> m s = CHR 0x00"
  by (simp add: cstr_at_def peek_def)

lemma cstr_at_Cons:
  "cstr_at m s (x # xs) \<longleftrightarrow> m s = x \<and> x \<noteq> CHR 0x00 \<and> cstr_at m (Suc s) xs"
  by (auto simp: cstr_at_def peek_Suc)

lemma cstr_at_iff:
  "cstr_at m s xs \<longleftrightarrow>
     (\<forall>i<length xs. m (s + i) = xs ! i \<and> xs ! i \<noteq> CHR 0x00) \<and> m (s + length xs) = CHR 0x00"
proof -
  have "peek m s (length xs + 1) = xs @ [CHR 0x00] \<longleftrightarrow>
        (\<forall>i<length xs. m (s + i) = xs ! i) \<and> m (s + length xs) = CHR 0x00"
    (is "?L \<longleftrightarrow> ?R")
  proof
    assume l: ?L
    have "m (s + i) = (xs @ [CHR 0x00]) ! i" if "i < length xs + 1" for i
      using peek_nth [OF that, of m s] l by simp
    from this [of "length xs"] this show ?R
      by (auto simp: nth_append)
  next
    assume r: ?R
    show ?L
      by (rule nth_equalityI) (use r in \<open>auto simp: length_peek peek_nth nth_append less_Suc_eq\<close>)
  qed
  then show ?thesis
    by (auto simp: cstr_at_def list_all_length)
qed

lemma cstr_at_cong:
  assumes "cstr_at m s xs" and "\<And>a. s \<le> a \<Longrightarrow> a \<le> s + length xs \<Longrightarrow> m' a = m a"
  shows "cstr_at m' s xs"
  using assms by (simp add: cstr_at_iff)

lemma cstr_at_no_zero: "cstr_at m s xs \<Longrightarrow> CHR 0x00 \<notin> set xs"
  by (auto simp: cstr_at_def list_all_iff)

lemma cstr_at_literal: "list_all (\<lambda>c. c \<noteq> CHR 0x00) s \<Longrightarrow> cstr_at (literal s) 0 s"
  by (simp add: cstr_at_iff literal_def mem_of_def nth_append list_all_length)

section \<open>The copy loop\<close>

text \<open>
  On a null-terminated source and a destination that does not overlap it corruptingly,
  the loop ends and has stored the source bytes, terminator included, from \<open>s1\<close> on.
\<close>

lemma strcpy_loop_cstr:
  assumes "cstr_at m s2 xs" and "\<not> (s2 < s1 \<and> s1 < s2 + (length xs + 1))"
  shows "strcpy_loop m s1 s2 = Some (written m s1 (xs @ [CHR 0x00]))"
  using assms
proof (induction xs arbitrary: m s1 s2)
  case Nil
  then have "m s2 = CHR 0x00"
    by (simp add: cstr_at_Nil)
  moreover have "m(s1 := CHR 0x00) = written m s1 [CHR 0x00]"
    by (rule ext) (auto simp: written_def)
  ultimately show ?case
    by (subst strcpy_loop.simps) simp
next
  case (Cons x xs)
  from Cons.prems(1) have x: "m s2 = x" "x \<noteq> CHR 0x00" and rest: "cstr_at m (Suc s2) xs"
    by (simp_all add: cstr_at_Cons)
  have rest': "cstr_at (m(s1 := x)) (Suc s2) xs"
    using rest Cons.prems(2) by (auto intro: cstr_at_cong)
  have apart: "\<not> (Suc s2 < Suc s1 \<and> Suc s1 < Suc s2 + (length xs + 1))"
    using Cons.prems(2) by auto
  have "written (m(s1 := x)) (Suc s1) (xs @ [CHR 0x00]) = written m s1 ((x # xs) @ [CHR 0x00])"
    by (rule ext) (auto simp: written_def Suc_diff_le)
  then have step: "strcpy_loop (m(s1 := x)) (Suc s1) (Suc s2) =
      Some (written m s1 ((x # xs) @ [CHR 0x00]))"
    using Cons.IH [OF rest' apart] by (simp only:)
  show ?case
    by (subst strcpy_loop.simps) (simp add: x step)
qed

lemma strcpy_result:
  assumes "cstr_at m s2 xs" and "\<not> corrupting_overlap s1 s2 (length xs + 1)"
  shows "strcpy m s1 s2 = Some (written m s1 (xs @ [CHR 0x00]), s1)"
  using strcpy_loop_cstr [OF assms(1), of s1] assms(2)
  by (simp add: strcpy_def corrupting_overlap_def)

lemma written_inside: "i < length bs \<Longrightarrow> written m s1 bs (s1 + i) = bs ! i"
  by (simp add: written_def)

lemma written_outside: "a < s1 \<or> s1 + length bs \<le> a \<Longrightarrow> written m s1 bs a = m a"
  by (auto simp: written_def)

lemma peek_written: "peek (written m s1 bs) s1 (length bs) = bs"
  by (rule nth_equalityI) (simp_all add: length_peek peek_nth written_inside)

text \<open>
  The overlap excluded above is exactly the one on which the loop never ends: when the
  bytes from \<open>s2\<close> up to \<open>s1\<close> are all non-zero, every byte the loop reads is one of
  them or a copy of one, so the terminator is overwritten before it is read.
\<close>

lemma strcpy_loop_diverges:
  assumes "s2 < s1" and "\<forall>a. s2 \<le> a \<and> a < s1 \<longrightarrow> m a \<noteq> CHR 0x00"
  shows "strcpy_loop m s1 s2 = None"
proof (rule ccontr)
  assume "strcpy_loop m s1 s2 \<noteq> None"
  then obtain r where r: "strcpy_loop m s1 s2 = Some r"
    by auto
  have "\<not> (s2 < s1 \<and> (\<forall>a. s2 \<le> a \<and> a < s1 \<longrightarrow> m a \<noteq> CHR 0x00))"
    using r
  proof (induction rule: strcpy_loop.raw_induct [rotated 1, consumes 1])
    case (1 loop m s1 s2 r)
    show ?case
    proof
      assume inv: "s2 < s1 \<and> (\<forall>a. s2 \<le> a \<and> a < s1 \<longrightarrow> m a \<noteq> CHR 0x00)"
      then have c: "m s2 \<noteq> CHR 0x00"
        by simp
      with 1(2) have "loop (m(s1 := m s2)) (s1 + 1) (s2 + 1) = Some r"
        by (simp add: Let_def)
      from 1(1) [OF this] inv c show False
        by (auto simp: less_Suc_eq)
    qed
  qed
  with assms show False
    by simp
qed

lemma strcpy_corrupting_overlap_diverges:
  assumes "cstr_at m s2 xs" and "corrupting_overlap s1 s2 (length xs + 1)"
  shows "strcpy m s1 s2 = None"
proof -
  have "m a \<noteq> CHR 0x00" if "s2 \<le> a" and "a < s1" for a
  proof -
    from that assms(2) have "a - s2 < length xs"
      by (auto simp: corrupting_overlap_def)
    with assms(1) have "m (s2 + (a - s2)) \<noteq> CHR 0x00"
      by (simp add: cstr_at_iff)
    with that show ?thesis
      by simp
  qed
  with assms(2) have "strcpy_loop m s1 s2 = None"
    by (intro strcpy_loop_diverges) (auto simp: corrupting_overlap_def)
  then show ?thesis
    by (simp add: strcpy_def)
qed

section \<open>The emission loop and the assertion handler\<close>

lemma debug_puts_loop_cstr:
  "cstr_at m s xs \<Longrightarrow> debug_puts_loop m s out = Some (out @ xs)"
proof (induction xs arbitrary: s out)
  case Nil
  then show ?case
    by (subst debug_puts_loop.simps) (simp add: cstr_at_Nil)
next
  case (Cons x xs)
  from Cons.prems have x: "m s = x" "x \<noteq> CHR 0x00" and rest: "cstr_at m (Suc s) xs"
    by (simp_all add: cstr_at_Cons)
  show ?case
    by (subst debug_puts_loop.simps) (simp add: x Cons.IH [OF rest] seL4_DebugPutChar_def)
qed

lemma debug_puts_enabled:
  "cstr_at m s xs \<Longrightarrow> debug_puts True m s out = Some (Normal, out @ xs)"
  by (simp add: debug_puts_def debug_puts_loop_cstr)

lemma debug_puts_disabled: "debug_puts False m s out = Some (Normal, out)"
  by (simp add: debug_puts_def)

lemma debug_puts_literal:
  "list_all (\<lambda>c. c \<noteq> CHR 0x00) s \<Longrightarrow> debug_puts True (literal s) 0 out = Some (Normal, out @ s)"
  by (simp add: debug_puts_enabled cstr_at_literal)

lemma debug_puts_not_Trapped: "debug_puts kp m s out \<noteq> Some (Trapped, out')"
  by (simp add: debug_puts_def split: option.splits)

lemma seq_Normal: "f out = Some (Normal, out') \<Longrightarrow> seq f g out = g out'"
  by (simp add: seq_def)

lemma seq_not_Normal:
  "(\<And>t. g t \<noteq> Some (Normal, u)) \<Longrightarrow> seq f g out \<noteq> Some (Normal, u)"
  by (auto simp: seq_def split: option.splits ctl.splits)

lemma builtin_trap_not_Normal: "builtin_trap t \<noteq> Some (Normal, u)"
  by (simp add: builtin_trap_def)

lemma assert_fail_enabled:
  assumes "cstr_at m expr E" and "cstr_at m file F" and "cstr_at m func N"
  shows "assert_fail True m expr file line func out =
     Some (Trapped, out @ ''ASSERT '' @ E @ '' in '' @ N @ '' at '' @ F @ '':??'')"
  using assms
  by (simp add: assert_fail_def seq_Normal debug_puts_enabled debug_puts_literal builtin_trap_def)

lemma assert_fail_disabled: "assert_fail False m expr file line func out = Some (Trapped, out)"
  by (simp add: assert_fail_def seq_Normal debug_puts_disabled builtin_trap_def)

lemma assert_fail_not_Normal: "assert_fail kp m expr file line func out \<noteq> Some (Normal, out')"
  unfolding assert_fail_def
  by (intro seq_not_Normal builtin_trap_not_Normal)

lemma take_peek: "n \<le> cap \<Longrightarrow> take n (peek m a cap) = peek m a n"
  by (simp add: peek_def take_map)

section \<open>Claims about strcpy (the spec's copy_bytes)\<close>

text \<open>
  C1. Let the source at \<open>s2\<close> be a null-terminated sequence S of length \<open>n\<close>, terminator
  included, and let the destination at \<open>s1\<close> have capacity \<open>cap\<close> of at least \<open>n\<close>.
  Then \<open>strcpy\<close> returns, the first \<open>n\<close> bytes of the destination are byte for byte the
  \<open>n\<close> bytes S that the source held, terminator included, and the value returned is the
  destination's starting address \<open>s1\<close>. The destination is a buffer that, as the contract
  of the copy asks of the caller, does not overlap the source in the way that corrupts the
  copy in progress: it does not start inside the source past its first byte. A destination
  disjoint from the source is such a buffer, and so is one that starts at or below the source.
\<close>

theorem strcpy_copies_source:
  assumes "cstr_at m s2 xs" and "n = length xs + 1" and "n \<le> cap"
    and "\<not> corrupting_overlap s1 s2 n"
  shows "\<exists>m'. strcpy m s1 s2 = Some (m', s1) \<and> take n (peek m' s1 cap) = peek m s2 n
     \<and> peek m s2 n = xs @ [CHR 0x00]"
proof -
  have "strcpy m s1 s2 = Some (written m s1 (xs @ [CHR 0x00]), s1)"
    using assms(1,2,4) by (simp add: strcpy_result)
  moreover have "peek (written m s1 (xs @ [CHR 0x00])) s1 n = xs @ [CHR 0x00]"
    using peek_written [of m s1 "xs @ [CHR 0x00]"] assms(2) by simp
  moreover have "peek m s2 n = xs @ [CHR 0x00]"
    using assms(1,2) by (simp add: cstr_at_def)
  ultimately show ?thesis
    using assms(3) by (simp add: take_peek)
qed

theorem strcpy_copies_source_witness:
  "cstr_at (mem_of (''ab'' @ [CHR 0x00] @ ''zzzzzzzzzzz'')) 0 ''ab''
   \<and> (3::nat) = length ''ab'' + 1 \<and> (3::nat) \<le> 4 \<and> \<not> corrupting_overlap 10 0 3
   \<and> (\<exists>m'. strcpy (mem_of (''ab'' @ [CHR 0x00] @ ''zzzzzzzzzzz'')) 10 0 = Some (m', 10)
         \<and> take 3 (peek m' 10 4) = [CHR ''a'', CHR ''b'', CHR 0x00])"
proof -
  let ?M = "mem_of (''ab'' @ [CHR 0x00] @ ''zzzzzzzzzzz'')"
  have h1: "cstr_at ?M 0 ''ab''"
    by (simp add: cstr_at_def peek_def mem_of_def)
  have h2: "(3::nat) = length ''ab'' + 1" and h3: "(3::nat) \<le> 4"
    by simp_all
  have h4: "\<not> corrupting_overlap 10 0 3"
    by (simp add: corrupting_overlap_def)
  have p: "peek ?M 0 3 = [CHR ''a'', CHR ''b'', CHR 0x00]"
    by code_simp
  from strcpy_copies_source [OF h1 h2 h3 h4] obtain m' where
    r: "strcpy ?M 10 0 = Some (m', 10)" and c: "take 3 (peek m' 10 4) = peek ?M 0 3"
    by blast
  from c p have "take 3 (peek m' 10 4) = [CHR ''a'', CHR ''b'', CHR 0x00]"
    by (simp only:)
  with r h1 h2 h3 h4 show ?thesis
    by blast
qed

text \<open>
  C7. Null-termination of the input alone does not make \<open>strcpy\<close> return: when the
  destination starts inside the source, past its first byte, the loop overwrites the
  terminator before it reads it and never ends (a concrete call follows the theorem).
  What holds is this. On a null-terminated input both loops end: \<open>strcpy\<close> returns whenever the destination does
  not start inside the source past its first byte, and \<open>debug_puts\<close> returns to its
  caller, under either build configuration. The assertion handler is the exception:
  whatever its arguments, it never returns to its caller.
\<close>

theorem operations_terminate:
  "(cstr_at m s2 xs \<and> \<not> corrupting_overlap s1 s2 (length xs + 1) \<longrightarrow>
      (\<exists>r. strcpy m s1 s2 = Some r))
   \<and> (cstr_at md s ys \<longrightarrow> (\<exists>out'. debug_puts kp md s out = Some (Normal, out')))
   \<and> (\<forall>out'. assert_fail kp ma expr file line func out \<noteq> Some (Normal, out'))"
proof (intro conjI impI allI)
  assume "cstr_at m s2 xs \<and> \<not> corrupting_overlap s1 s2 (length xs + 1)"
  then have "strcpy m s1 s2 = Some (written m s1 (xs @ [CHR 0x00]), s1)"
    by (intro strcpy_result) simp_all
  then show "\<exists>r. strcpy m s1 s2 = Some r"
    by simp
next
  assume "cstr_at md s ys"
  then show "\<exists>out'. debug_puts kp md s out = Some (Normal, out')"
    by (cases kp) (simp_all add: debug_puts_enabled debug_puts_disabled)
next
  fix out'
  show "assert_fail kp ma expr file line func out \<noteq> Some (Normal, out')"
    by (rule assert_fail_not_Normal)
qed

theorem operations_terminate_witness:
  "cstr_at (mem_of (''ab'' @ [CHR 0x00])) 0 ''ab'' \<and> \<not> corrupting_overlap 10 0 (length ''ab'' + 1)
   \<and> (\<exists>r. strcpy (mem_of (''ab'' @ [CHR 0x00])) 10 0 = Some r)
   \<and> (\<exists>out'. debug_puts True (mem_of (''ab'' @ [CHR 0x00])) 0 [] = Some (Normal, out'))"
proof -
  let ?M = "mem_of (''ab'' @ [CHR 0x00])"
  have h1: "cstr_at ?M 0 ''ab''"
    by (simp add: cstr_at_def peek_def mem_of_def)
  have h2: "\<not> corrupting_overlap 10 0 (length ''ab'' + 1)"
    by (simp add: corrupting_overlap_def)
  from operations_terminate [of ?M 0 "''ab''" 10 ?M 0 "''ab''" True "[]"] h1 h2
  show ?thesis
    by blast
qed

text \<open>
  The source \<open>ab\<close> with its terminator at address 0 is null-terminated; copied to the
  destination at address 1 the call never returns: the first turn stores \<open>a\<close> at 1,
  the second reads it there and stores it over the terminator at 2, and every later turn
  reads a byte the loop has stored itself.
\<close>

theorem strcpy_overlap_never_returns:
  "cstr_at (mem_of (''ab'' @ [CHR 0x00])) 0 ''ab''
   \<and> strcpy (mem_of (''ab'' @ [CHR 0x00])) 1 0 = None"
proof -
  have h: "cstr_at (mem_of (''ab'' @ [CHR 0x00])) 0 ''ab''"
    by code_simp
  have "corrupting_overlap 1 0 (length ''ab'' + 1)"
    by (simp add: corrupting_overlap_def)
  with h have "strcpy (mem_of (''ab'' @ [CHR 0x00])) 1 0 = None"
    by (rule strcpy_corrupting_overlap_diverges)
  with h show ?thesis
    by simp
qed

text \<open>
  C8. Not every valid call leaves the source as it was: a call whose destination starts
  below the source and overlaps it is valid (the copy is exact, the overlap is not the
  corrupting one), and it overwrites source bytes (a concrete call follows the theorem).
  What holds is this. \<open>strcpy\<close> changes the destination buffer only: in every
  valid call, with a source of length \<open>n\<close> including the terminator, every byte of
  memory outside the \<open>n\<close> destination bytes copied is left as it was, so the bytes of
  the destination after the \<open>n\<close> copied ones are, whatever the capacity \<open>cap\<close>; and
  the source is left as it was when it does not overlap those \<open>n\<close> bytes, or when
  destination and source are the same address. Memory is all the state the function has.
\<close>

theorem strcpy_frame:
  assumes "cstr_at m s2 xs" and "n = length xs + 1" and "\<not> corrupting_overlap s1 s2 n"
  shows "\<exists>m'. strcpy m s1 s2 = Some (m', s1)
     \<and> (\<forall>a. a < s1 \<or> s1 + n \<le> a \<longrightarrow> m' a = m a)
     \<and> peek m' (s1 + n) (cap - n) = peek m (s1 + n) (cap - n)
     \<and> (s1 + n \<le> s2 \<or> s2 + n \<le> s1 \<or> s1 = s2 \<longrightarrow> peek m' s2 n = peek m s2 n)"
proof -
  let ?m' = "written m s1 (xs @ [CHR 0x00])"
  have r: "strcpy m s1 s2 = Some (?m', s1)"
    using assms by (simp add: strcpy_result)
  have out: "?m' a = m a" if "a < s1 \<or> s1 + n \<le> a" for a
    using that assms(2) by (simp add: written_outside)
  have tail: "peek ?m' (s1 + n) (cap - n) = peek m (s1 + n) (cap - n)"
    by (intro peek_cong out) auto
  have src: "peek ?m' s2 n = peek m s2 n" if "s1 + n \<le> s2 \<or> s2 + n \<le> s1 \<or> s1 = s2"
  proof (cases "s1 = s2")
    case True
    have "peek ?m' s1 (length (xs @ [CHR 0x00])) = xs @ [CHR 0x00]"
      by (rule peek_written)
    moreover have "peek m s2 (length xs + 1) = xs @ [CHR 0x00]"
      using assms(1) by (simp add: cstr_at_def)
    ultimately show ?thesis
      using True assms(2) by simp
  next
    case False
    with that show ?thesis
      by (intro peek_cong out) auto
  qed
  from r out tail src show ?thesis
    by blast
qed

theorem strcpy_frame_witness:
  "cstr_at (mem_of (''ab'' @ [CHR 0x00] @ ''zzzzzzzzzzz'')) 0 ''ab''
   \<and> (3::nat) = length ''ab'' + 1 \<and> \<not> corrupting_overlap 10 0 3
   \<and> ((10::nat) + 3 \<le> 0 \<or> (0::nat) + 3 \<le> 10 \<or> (10::nat) = 0)
   \<and> (\<exists>m'. strcpy (mem_of (''ab'' @ [CHR 0x00] @ ''zzzzzzzzzzz'')) 10 0 = Some (m', 10)
         \<and> m' 9 = CHR ''z''
         \<and> peek m' 13 1 = [CHR ''z'']
         \<and> peek m' 0 3 = [CHR ''a'', CHR ''b'', CHR 0x00])"
proof -
  let ?M = "mem_of (''ab'' @ [CHR 0x00] @ ''zzzzzzzzzzz'')"
  have h1: "cstr_at ?M 0 ''ab''"
    by code_simp
  have h2: "(3::nat) = length ''ab'' + 1"
    and h4: "(10::nat) + 3 \<le> 0 \<or> (0::nat) + 3 \<le> 10 \<or> (10::nat) = 0"
    by simp_all
  have h3: "\<not> corrupting_overlap 10 0 3"
    by (simp add: corrupting_overlap_def)
  have p: "peek ?M 0 3 = [CHR ''a'', CHR ''b'', CHR 0x00]"
    and q: "peek ?M (10 + 3) (4 - 3) = [CHR ''z'']" and z: "?M 9 = CHR ''z''"
    by code_simp+
  have e: "(10::nat) + 3 = 13" "(4::nat) - 3 = 1"
    by simp_all
  from strcpy_frame [OF h1 h2 h3, of 4] h4 obtain m' where
    r: "strcpy ?M 10 0 = Some (m', 10)" and f: "m' 9 = ?M 9"
    and b: "peek m' (10 + 3) (4 - 3) = peek ?M (10 + 3) (4 - 3)"
    and a: "peek m' 0 3 = peek ?M 0 3"
    by auto
  from f z have "m' 9 = CHR ''z''"
    by (simp only:)
  moreover from b q have "peek m' 13 1 = [CHR ''z'']"
    by (simp only: e)
  moreover from a p have "peek m' 0 3 = [CHR ''a'', CHR ''b'', CHR 0x00]"
    by (simp only:)
  ultimately show ?thesis
    using r h1 h2 h3 h4 by blast
qed

text \<open>
  Memory holds \<open>zzabc\<close> and the terminator from address 0; the source is \<open>abc\<close> at
  address 2 and the destination is address 1. The call is valid: the source is
  null-terminated and the destination does not start inside it. It returns 1 after
  storing \<open>abc\<close> and the terminator at addresses 1 to 4, so that the four bytes at the
  source's address, \<open>abc\<close> and the terminator before the call, are \<open>bc\<close> and two
  zero bytes after it.
\<close>

theorem strcpy_overlap_changes_source:
  "cstr_at (mem_of (''zzabc'' @ [CHR 0x00])) 2 ''abc''
   \<and> \<not> corrupting_overlap 1 2 4
   \<and> strcpy (mem_of (''zzabc'' @ [CHR 0x00])) 1 2
       = Some (written (mem_of (''zzabc'' @ [CHR 0x00])) 1 (''abc'' @ [CHR 0x00]), 1)
   \<and> peek (mem_of (''zzabc'' @ [CHR 0x00])) 2 4 = [CHR ''a'', CHR ''b'', CHR ''c'', CHR 0x00]
   \<and> peek (written (mem_of (''zzabc'' @ [CHR 0x00])) 1 (''abc'' @ [CHR 0x00])) 2 4
       = [CHR ''b'', CHR ''c'', CHR 0x00, CHR 0x00]"
proof -
  let ?M = "mem_of (''zzabc'' @ [CHR 0x00])"
  have h: "cstr_at ?M 2 ''abc''"
    by code_simp
  have o: "\<not> corrupting_overlap 1 2 4"
    by (simp add: corrupting_overlap_def)
  have o': "\<not> corrupting_overlap 1 2 (length ''abc'' + 1)"
    by (simp add: corrupting_overlap_def)
  have r: "strcpy ?M 1 2 = Some (written ?M 1 (''abc'' @ [CHR 0x00]), 1)"
    using h o' by (rule strcpy_result)
  have p: "peek ?M 2 4 = [CHR ''a'', CHR ''b'', CHR ''c'', CHR 0x00]"
    by code_simp
  have q: "peek (written ?M 1 (''abc'' @ [CHR 0x00])) 2 4 = [CHR ''b'', CHR ''c'', CHR 0x00, CHR 0x00]"
    by code_simp
  from h o r p q show ?thesis
    by blast
qed

text \<open>
  C10. When destination and source are the same address of a null-terminated buffer,
  \<open>strcpy\<close> returns, the memory after the call is the memory before it, byte for byte,
  and the value returned is the buffer's starting address.
\<close>

theorem strcpy_exact_alias:
  assumes "cstr_at m s xs"
  shows "strcpy m s s = Some (m, s)"
proof -
  have "written m s (xs @ [CHR 0x00]) = m"
  proof (rule ext)
    fix a
    show "written m s (xs @ [CHR 0x00]) a = m a"
    proof (cases "s \<le> a \<and> a < s + (length xs + 1)")
      case True
      then have "peek m s (length xs + 1) ! (a - s) = m (s + (a - s))"
        by (intro peek_nth) auto
      with True assms show ?thesis
        by (simp add: written_def cstr_at_def)
    next
      case False
      then show ?thesis
        by (auto simp: written_def)
    qed
  qed
  moreover have "\<not> corrupting_overlap s s (length xs + 1)"
    by (simp add: corrupting_overlap_def)
  ultimately show ?thesis
    using assms by (simp add: strcpy_result)
qed

theorem strcpy_exact_alias_witness:
  "cstr_at (mem_of (''ab'' @ [CHR 0x00])) 0 ''ab''
   \<and> strcpy (mem_of (''ab'' @ [CHR 0x00])) 0 0 = Some (mem_of (''ab'' @ [CHR 0x00]), 0)"
proof -
  have h: "cstr_at (mem_of (''ab'' @ [CHR 0x00])) 0 ''ab''"
    by (simp add: cstr_at_def peek_def mem_of_def)
  from strcpy_exact_alias [OF h] h show ?thesis
    by simp
qed

section \<open>Claims about debug_puts (the spec's debug emission)\<close>

text \<open>
  C4. With \<^verbatim>\<open>KernelPrinting\<close> unset, \<open>debug_puts\<close> on any memory and any pointer, a
  null-terminated sequence or not, returns with the list of calls to
  \<open>seL4_DebugPutChar\<close> as it was: no call is made and no byte is emitted.
\<close>

theorem debug_puts_disabled_silent: "debug_puts False m s out = Some (Normal, out)"
  by (rule debug_puts_disabled)

text \<open>
  C5. With \<^verbatim>\<open>KernelPrinting\<close> set, \<open>debug_puts\<close> on a null-terminated sequence whose
  bytes before the terminator are \<open>xs\<close> returns after passing to \<open>seL4_DebugPutChar\<close>
  exactly the bytes \<open>xs\<close>, one byte a call, in the order of the sequence: the calls made
  are those made before, followed by \<open>xs\<close>. These are the bytes the memory holds from
  \<open>s\<close> up to the terminator, and the zero byte is not among them.
\<close>

theorem debug_puts_emits_bytes:
  assumes "cstr_at m s xs"
  shows "debug_puts True m s out = Some (Normal, out @ xs)
     \<and> xs = peek m s (length xs) \<and> m (s + length xs) = CHR 0x00 \<and> CHR 0x00 \<notin> set xs"
proof -
  have "peek m s (length xs) = xs"
    by (rule nth_equalityI) (use assms in \<open>simp_all add: length_peek peek_nth cstr_at_iff\<close>)
  moreover have "m (s + length xs) = CHR 0x00"
    using assms by (simp add: cstr_at_iff)
  ultimately show ?thesis
    using assms by (simp add: debug_puts_enabled cstr_at_no_zero)
qed

theorem debug_puts_emits_bytes_witness:
  "cstr_at (mem_of (''zzhi'' @ [CHR 0x00] @ ''zz'')) 2 ''hi''
   \<and> debug_puts True (mem_of (''zzhi'' @ [CHR 0x00] @ ''zz'')) 2 ''>'' = Some (Normal, ''>hi'')"
proof -
  have h: "cstr_at (mem_of (''zzhi'' @ [CHR 0x00] @ ''zz'')) 2 ''hi''"
    by code_simp
  from debug_puts_emits_bytes [OF h, of "''>''"]
  have "debug_puts True (mem_of (''zzhi'' @ [CHR 0x00] @ ''zz'')) 2 ''>'' = Some (Normal, ''>'' @ ''hi'')"
    by (rule conjunct1)
  with h show ?thesis
    by simp
qed

section \<open>Claims about __assert_fail (the spec's report_and_halt)\<close>

text \<open>
  C2. With \<^verbatim>\<open>KernelPrinting\<close> set, the handler called with the expression text \<open>E\<close>,
  the file path \<open>F\<close> and the function name \<open>N\<close> (each a null-terminated sequence in
  memory) passes to \<open>seL4_DebugPutChar\<close>, one character a call and in this order, the
  marker \<open>ASSERT \<close>, then \<open>E\<close>, the separator \<open> in \<close>, \<open>N\<close>, the separator
  \<open> at \<close>, \<open>F\<close> and the line placeholder \<open>:??\<close>, and nothing else, and then traps.
  For \<open>x>0\<close>, \<open>a.c\<close> and \<open>main\<close> that is \<open>ASSERT x>0 in main at a.c:??\<close>, as the
  instance proved after the theorem shows on a concrete memory.
\<close>

theorem assert_fail_message:
  assumes "cstr_at m expr E" and "cstr_at m file F" and "cstr_at m func N"
  shows "assert_fail True m expr file line func out =
     Some (Trapped, out @ ''ASSERT '' @ E @ '' in '' @ N @ '' at '' @ F @ '':??'')"
  using assms by (rule assert_fail_enabled)

theorem assert_fail_message_witness:
  "cstr_at (mem_of (''x>0'' @ [CHR 0x00] @ ''a.c'' @ [CHR 0x00] @ ''main'' @ [CHR 0x00])) 0 ''x>0''
   \<and> cstr_at (mem_of (''x>0'' @ [CHR 0x00] @ ''a.c'' @ [CHR 0x00] @ ''main'' @ [CHR 0x00])) 4 ''a.c''
   \<and> cstr_at (mem_of (''x>0'' @ [CHR 0x00] @ ''a.c'' @ [CHR 0x00] @ ''main'' @ [CHR 0x00])) 8 ''main''
   \<and> assert_fail True
        (mem_of (''x>0'' @ [CHR 0x00] @ ''a.c'' @ [CHR 0x00] @ ''main'' @ [CHR 0x00])) 0 4 17 8 []
       = Some (Trapped, ''ASSERT x>0 in main at a.c:??'')"
proof -
  let ?M = "mem_of (''x>0'' @ [CHR 0x00] @ ''a.c'' @ [CHR 0x00] @ ''main'' @ [CHR 0x00])"
  have e: "cstr_at ?M 0 ''x>0''" and f: "cstr_at ?M 4 ''a.c''" and n: "cstr_at ?M 8 ''main''"
    by code_simp+
  from assert_fail_message [OF e f n, of 17 "[]"] e f n show ?thesis
    by simp
qed

text \<open>
  C3. The handler never returns to its caller, whatever its arguments (any memory, any
  pointers, any line number) and under either build configuration: no call ends in
  \<open>Normal\<close>. With \<^verbatim>\<open>KernelPrinting\<close> unset every call reaches the trap with no call to
  \<open>seL4_DebugPutChar\<close> made. With any configuration, a call whose expression text, file
  path and function name are null-terminated sequences reaches the trap.
\<close>

theorem assert_fail_never_returns:
  "(\<forall>out'. assert_fail kp m expr file line func out \<noteq> Some (Normal, out'))
   \<and> assert_fail False m expr file line func out = Some (Trapped, out)
   \<and> (cstr_at m expr E \<and> cstr_at m file F \<and> cstr_at m func N \<longrightarrow>
        (\<exists>out'. assert_fail kp m expr file line func out = Some (Trapped, out')))"
proof (intro conjI allI impI)
  fix out'
  show "assert_fail kp m expr file line func out \<noteq> Some (Normal, out')"
    by (rule assert_fail_not_Normal)
next
  show "assert_fail False m expr file line func out = Some (Trapped, out)"
    by (rule assert_fail_disabled)
next
  assume "cstr_at m expr E \<and> cstr_at m file F \<and> cstr_at m func N"
  then have "assert_fail True m expr file line func out =
      Some (Trapped, out @ ''ASSERT '' @ E @ '' in '' @ N @ '' at '' @ F @ '':??'')"
    by (intro assert_fail_enabled) simp_all
  then show "\<exists>out'. assert_fail kp m expr file line func out = Some (Trapped, out')"
    by (cases kp) (simp_all add: assert_fail_disabled)
qed

theorem assert_fail_never_returns_witness:
  "cstr_at (mem_of (''x>0'' @ [CHR 0x00] @ ''a.c'' @ [CHR 0x00] @ ''main'' @ [CHR 0x00])) 0 ''x>0''
   \<and> cstr_at (mem_of (''x>0'' @ [CHR 0x00] @ ''a.c'' @ [CHR 0x00] @ ''main'' @ [CHR 0x00])) 4 ''a.c''
   \<and> cstr_at (mem_of (''x>0'' @ [CHR 0x00] @ ''a.c'' @ [CHR 0x00] @ ''main'' @ [CHR 0x00])) 8 ''main''
   \<and> (\<exists>out'. assert_fail True
        (mem_of (''x>0'' @ [CHR 0x00] @ ''a.c'' @ [CHR 0x00] @ ''main'' @ [CHR 0x00])) 0 4 17 8 []
       = Some (Trapped, out'))
   \<and> assert_fail False
        (mem_of (''x>0'' @ [CHR 0x00] @ ''a.c'' @ [CHR 0x00] @ ''main'' @ [CHR 0x00])) 0 4 17 8 []
       = Some (Trapped, [])"
proof -
  let ?M = "mem_of (''x>0'' @ [CHR 0x00] @ ''a.c'' @ [CHR 0x00] @ ''main'' @ [CHR 0x00])"
  have e: "cstr_at ?M 0 ''x>0''" and f: "cstr_at ?M 4 ''a.c''" and n: "cstr_at ?M 8 ''main''"
    by code_simp+
  from assert_fail_never_returns [of True ?M 0 4 17 8 "[]" "''x>0''" "''a.c''" "''main''"] e f n
  show ?thesis
    by blast
qed

text \<open>
  C6. What the handler emits does not depend on the line number: two calls that differ
  in the line number only have the same outcome, and so pass the same characters to
  \<open>seL4_DebugPutChar\<close>. Where the message is emitted (\<^verbatim>\<open>KernelPrinting\<close> set, the three
  texts null-terminated) it is made of the three texts and fixed literals only, and the
  place of the line is taken by the fixed literal \<open>:??\<close>.
\<close>

theorem assert_fail_ignores_line:
  "assert_fail kp m expr file line func out = assert_fail kp m expr file line' func out
   \<and> (cstr_at m expr E \<and> cstr_at m file F \<and> cstr_at m func N \<longrightarrow>
        assert_fail True m expr file line func out =
          Some (Trapped, out @ ''ASSERT '' @ E @ '' in '' @ N @ '' at '' @ F @ '':??'')
        \<and> assert_fail True m expr file line' func out =
          Some (Trapped, out @ ''ASSERT '' @ E @ '' in '' @ N @ '' at '' @ F @ '':??''))"
proof (intro conjI impI)
  show "assert_fail kp m expr file line func out = assert_fail kp m expr file line' func out"
    by (simp add: assert_fail_def)
next
  assume "cstr_at m expr E \<and> cstr_at m file F \<and> cstr_at m func N"
  then show "assert_fail True m expr file line func out =
      Some (Trapped, out @ ''ASSERT '' @ E @ '' in '' @ N @ '' at '' @ F @ '':??'')"
    by (intro assert_fail_enabled) simp_all
next
  assume "cstr_at m expr E \<and> cstr_at m file F \<and> cstr_at m func N"
  then show "assert_fail True m expr file line' func out =
      Some (Trapped, out @ ''ASSERT '' @ E @ '' in '' @ N @ '' at '' @ F @ '':??'')"
    by (intro assert_fail_enabled) simp_all
qed

theorem assert_fail_ignores_line_witness:
  "cstr_at (mem_of (''x>0'' @ [CHR 0x00] @ ''a.c'' @ [CHR 0x00] @ ''main'' @ [CHR 0x00])) 0 ''x>0''
   \<and> cstr_at (mem_of (''x>0'' @ [CHR 0x00] @ ''a.c'' @ [CHR 0x00] @ ''main'' @ [CHR 0x00])) 4 ''a.c''
   \<and> cstr_at (mem_of (''x>0'' @ [CHR 0x00] @ ''a.c'' @ [CHR 0x00] @ ''main'' @ [CHR 0x00])) 8 ''main''
   \<and> assert_fail True
        (mem_of (''x>0'' @ [CHR 0x00] @ ''a.c'' @ [CHR 0x00] @ ''main'' @ [CHR 0x00])) 0 4 17 8 []
       = Some (Trapped, ''ASSERT x>0 in main at a.c:??'')
   \<and> assert_fail True
        (mem_of (''x>0'' @ [CHR 0x00] @ ''a.c'' @ [CHR 0x00] @ ''main'' @ [CHR 0x00])) 0 4 4242 8 []
       = Some (Trapped, ''ASSERT x>0 in main at a.c:??'')"
proof -
  let ?M = "mem_of (''x>0'' @ [CHR 0x00] @ ''a.c'' @ [CHR 0x00] @ ''main'' @ [CHR 0x00])"
  have e: "cstr_at ?M 0 ''x>0''" and f: "cstr_at ?M 4 ''a.c''" and n: "cstr_at ?M 8 ''main''"
    by code_simp+
  from assert_fail_ignores_line
      [of True ?M 0 4 17 8 "[]" 4242 "''x>0''" "''a.c''" "''main''"] e f n
  show ?thesis
    by simp
qed

text \<open>
  C9. The handler checks no length. Called with an empty expression text (the pointer
  is at a zero byte), or with an empty function name, it still emits the message, the
  empty text adding no character between the literals around it, and still traps; with
  \<^verbatim>\<open>KernelPrinting\<close> unset it traps without emitting. In no case does it return to
  its caller.
\<close>

theorem assert_fail_empty_fragments:
  "(cstr_at m expr [] \<and> cstr_at m file F \<and> cstr_at m func N \<longrightarrow>
      assert_fail True m expr file line func out =
        Some (Trapped, out @ ''ASSERT  in '' @ N @ '' at '' @ F @ '':??''))
   \<and> (cstr_at m expr E \<and> cstr_at m file F \<and> cstr_at m func [] \<longrightarrow>
      assert_fail True m expr file line func out =
        Some (Trapped, out @ ''ASSERT '' @ E @ '' in  at '' @ F @ '':??''))
   \<and> assert_fail False m expr file line func out = Some (Trapped, out)
   \<and> (\<forall>out'. assert_fail kp m expr file line func out \<noteq> Some (Normal, out'))"
proof (intro conjI impI allI)
  assume "cstr_at m expr [] \<and> cstr_at m file F \<and> cstr_at m func N"
  then have "assert_fail True m expr file line func out =
      Some (Trapped, out @ ''ASSERT '' @ [] @ '' in '' @ N @ '' at '' @ F @ '':??'')"
    by (intro assert_fail_enabled) simp_all
  then show "assert_fail True m expr file line func out =
      Some (Trapped, out @ ''ASSERT  in '' @ N @ '' at '' @ F @ '':??'')"
    by simp
next
  assume "cstr_at m expr E \<and> cstr_at m file F \<and> cstr_at m func []"
  then have "assert_fail True m expr file line func out =
      Some (Trapped, out @ ''ASSERT '' @ E @ '' in '' @ [] @ '' at '' @ F @ '':??'')"
    by (intro assert_fail_enabled) simp_all
  then show "assert_fail True m expr file line func out =
      Some (Trapped, out @ ''ASSERT '' @ E @ '' in  at '' @ F @ '':??'')"
    by simp
next
  show "assert_fail False m expr file line func out = Some (Trapped, out)"
    by (rule assert_fail_disabled)
next
  fix out'
  show "assert_fail kp m expr file line func out \<noteq> Some (Normal, out')"
    by (rule assert_fail_not_Normal)
qed

theorem assert_fail_empty_fragments_witness:
  "cstr_at (mem_of ([CHR 0x00] @ ''a.c'' @ [CHR 0x00] @ ''main'' @ [CHR 0x00])) 0 []
   \<and> cstr_at (mem_of ([CHR 0x00] @ ''a.c'' @ [CHR 0x00] @ ''main'' @ [CHR 0x00])) 1 ''a.c''
   \<and> cstr_at (mem_of ([CHR 0x00] @ ''a.c'' @ [CHR 0x00] @ ''main'' @ [CHR 0x00])) 5 ''main''
   \<and> assert_fail True (mem_of ([CHR 0x00] @ ''a.c'' @ [CHR 0x00] @ ''main'' @ [CHR 0x00])) 0 1 17 5 []
       = Some (Trapped, ''ASSERT  in main at a.c:??'')
   \<and> assert_fail True (mem_of ([CHR 0x00] @ ''a.c'' @ [CHR 0x00] @ ''main'' @ [CHR 0x00])) 5 1 17 0 []
       = Some (Trapped, ''ASSERT main in  at a.c:??'')"
proof -
  let ?M = "mem_of ([CHR 0x00] @ ''a.c'' @ [CHR 0x00] @ ''main'' @ [CHR 0x00])"
  have e: "cstr_at ?M 0 []" and f: "cstr_at ?M 1 ''a.c''" and n: "cstr_at ?M 5 ''main''"
    by code_simp+
  from assert_fail_empty_fragments [of ?M 0 1 "''a.c''" 5 "''main''" 17 "[]"] e f n
  have a: "assert_fail True ?M 0 1 17 5 [] = Some (Trapped, ''ASSERT  in main at a.c:??'')"
    by simp
  from assert_fail_empty_fragments [of ?M 5 1 "''a.c''" 0 "[]" 17 "[]" "''main''"] e f n
  have b: "assert_fail True ?M 5 1 17 0 [] = Some (Trapped, ''ASSERT main in  at a.c:??'')"
    by simp
  from a b e f n show ?thesis
    by blast
qed

end
